theory Spec2Isabelle
  imports Main "HOL-Library.Multiset"
begin

section \<open>Strings and numbers as the script uses them\<close>

text \<open>
  Python strings are modelled as \<open>string\<close>. The newline character is written \<open>nl\<close>.
\<close>

abbreviation nl :: char where
  "nl \<equiv> CHR 0x0A"

text \<open>\<open>str.format\<close> of an integer: its decimal digits, with a minus sign when negative.\<close>

definition digit_char :: "nat \<Rightarrow> char" where
  "digit_char d = ''0123456789'' ! d"

fun str_nat :: "nat \<Rightarrow> string" where
  "str_nat n = (if n < 10 then [digit_char n] else str_nat (n div 10) @ [digit_char (n mod 10)])"

declare str_nat.simps [simp del]

definition str_int :: "int \<Rightarrow> string" where
  "str_int i = (if i < 0 then CHR ''-'' # str_nat (nat (- i)) else str_nat (nat i))"

section \<open>Pull request records and changelog lines\<close>

text \<open>
  The dictionaries built by \<open>_get_pull_requests_after_last_release\<close>, with the keys
  \<open>title\<close>, \<open>number\<close>, \<open>url\<close> and \<open>labels\<close>.
\<close>

record pull_request =
  pr_title :: string
  pr_number :: int
  pr_url :: string
  pr_labels :: "string list"

text \<open>\<open>ChangelogCI._get_changelog_line\<close>.\<close>

definition get_changelog_line :: "pull_request \<Rightarrow> string" where
  "get_changelog_line item =
     ''* [#'' @ str_int (pr_number item) @ ''](''  @ pr_url item @ ''): '' @ pr_title item @ [nl]"

section \<open>Grouping: \<open>ChangelogCI._parse_data\<close>\<close>

text \<open>One entry of \<open>group_config\<close>: the keys \<open>title\<close> and \<open>labels\<close>.\<close>

record group_cfg =
  cfg_title :: string
  cfg_labels :: "string list"

text \<open>
  The \<open>items\<close> of an output entry are a list for a configured group and a \<open>map\<close> object for
  the other two entries. Both hold lines; they differ in truth value: a list is true when it
  is not empty, a \<open>map\<close> object is always true.
\<close>

datatype items = Listed "string list" | Mapped "string list"

fun lines_of :: "items \<Rightarrow> string list" where
  "lines_of (Listed ls) = ls"
| "lines_of (Mapped ls) = ls"

fun truthy_items :: "items \<Rightarrow> bool" where
  "truthy_items (Listed ls) = (ls \<noteq> [])"
| "truthy_items (Mapped ls) = True"

record group_data =
  d_title :: string
  d_items :: items

text \<open>
  \<open>any(label in pull_request['labels'] for label in config['labels'])\<close>.
\<close>

definition label_match :: "string list \<Rightarrow> pull_request \<Rightarrow> bool" where
  "label_match labels pr = list_ex (\<lambda>label. label \<in> set (pr_labels pr)) labels"

text \<open>
  The inner loop \<open>for pull_request in pull_request_data\<close>. The list iterator keeps an index
  \<open>i\<close> into the list, reads the element at \<open>i\<close> while \<open>i\<close> is below the current length, and
  then advances. The body removes the first element equal to the current one from the very
  list that is iterated (\<open>list.remove\<close>), which shortens the list under the iterator.
\<close>

function group_loop ::
  "string list \<Rightarrow> nat \<Rightarrow> pull_request list \<Rightarrow> string list \<Rightarrow> string list \<times> pull_request list"
where
  "group_loop labels i pool acc =
     (if i < length pool then
        (let pull_request = pool ! i in
         if label_match labels pull_request
         then group_loop labels (Suc i) (remove1 pull_request pool)
                (acc @ [get_changelog_line pull_request])
         else group_loop labels (Suc i) pool acc)
      else (acc, pool))"
  by pat_completeness auto
termination
proof (relation "measure (\<lambda>(labels, i, pool, acc). length pool - i)")
  show "wf (measure (\<lambda>(labels, i, pool, acc). length pool - i))"
    by simp
next
  fix labels :: "string list" and i :: nat and pool :: "pull_request list"
    and acc :: "string list" and x :: pull_request
  assume lt: "i < length pool" and x: "x = pool ! i"
  from lt x have "x \<in> set pool"
    by simp
  then have "length (remove1 x pool) = length pool - 1"
    by (simp add: length_remove1)
  with lt show "((labels, Suc i, remove1 x pool, acc @ [get_changelog_line x]),
                 (labels, i, pool, acc))
                \<in> measure (\<lambda>(labels, i, pool, acc). length pool - i)"
    by simp
next
  fix labels :: "string list" and i :: nat and pool :: "pull_request list"
    and acc :: "string list" and x :: pull_request
  assume "i < length pool"
  then show "((labels, Suc i, pool, acc), (labels, i, pool, acc))
             \<in> measure (\<lambda>(labels, i, pool, acc). length pool - i)"
    by simp
qed

declare group_loop.simps [simp del]

text \<open>
  The outer loop \<open>for config in group_config\<close>: each group starts the inner loop at index 0
  on the pool the earlier groups left, and appends its entry to \<open>data\<close>.
\<close>

fun groups_loop ::
  "group_cfg list \<Rightarrow> pull_request list \<Rightarrow> group_data list \<Rightarrow> group_data list \<times> pull_request list"
where
  "groups_loop [] pool data = (data, pool)"
| "groups_loop (config # rest) pool data =
     (case group_loop (cfg_labels config) 0 pool [] of
        (its, pool') \<Rightarrow>
          groups_loop rest pool'
            (data @ [\<lparr>d_title = ''#### '' @ cfg_title config @ [nl, nl], d_items = Listed its\<rparr>]))"

definition other_changes :: "pull_request list \<Rightarrow> group_data" where
  "other_changes pool =
     \<lparr>d_title = ''#### Other Changes'' @ [nl, nl], d_items = Mapped (map get_changelog_line pool)\<rparr>"

definition parse_data :: "group_cfg list \<Rightarrow> pull_request list \<Rightarrow> group_data list" where
  "parse_data group_config pull_request_data =
     (if group_config \<noteq> [] then
        (case groups_loop group_config pull_request_data [] of
           (data, pool) \<Rightarrow> if pool \<noteq> [] then data @ [other_changes pool] else data)
      else [\<lparr>d_title = [], d_items = Mapped (map get_changelog_line pull_request_data)\<rparr>])"

text \<open>All the lines of the returned entries, in the order they are written.\<close>

definition all_lines :: "group_data list \<Rightarrow> string list" where
  "all_lines data = concat (map (\<lambda>d. lines_of (d_items d)) data)"

section \<open>Configuration validation: \<open>validate_config\<close>\<close>

text \<open>
  The value \<open>json.load\<close> hands to \<open>validate_config\<close>. An object is the list of its
  key/value pairs with distinct keys. Numbers are integers; fractional numbers are left out.
\<close>

datatype json =
  JNull
| JBool bool
| JInt int
| JStr string
| JArr "json list"
| JObj "(string \<times> json) list"

text \<open>Python's truth value of such a value, as \<open>not x\<close> tests it.\<close>

fun truthy :: "json \<Rightarrow> bool" where
  "truthy JNull = False"
| "truthy (JBool b) = b"
| "truthy (JInt i) = (i \<noteq> 0)"
| "truthy (JStr s) = (s \<noteq> [])"
| "truthy (JArr xs) = (xs \<noteq> [])"
| "truthy (JObj kvs) = (kvs \<noteq> [])"

text \<open>\<open>dict.get(key)\<close>: the value, or \<open>None\<close> when the key is absent.\<close>

definition dict_get :: "(string \<times> json) list \<Rightarrow> string \<Rightarrow> json" where
  "dict_get kvs key = (case map_of kvs key of None \<Rightarrow> JNull | Some v \<Rightarrow> v)"

fun is_list :: "json \<Rightarrow> bool" where
  "is_list (JArr xs) = True"
| "is_list _ = False"

datatype error =
  TypeError string
| KeyError string
| FileNotFoundError

text \<open>The body of the loop over \<open>group_config\<close>, for one element.\<close>

definition validate_group :: "json \<Rightarrow> error + unit" where
  "validate_group config =
     (case config of
        JObj kvs \<Rightarrow>
          (let title = dict_get kvs ''title'';
               labels = dict_get kvs ''labels''
           in if \<not> truthy title then Inl (KeyError ''group_config item must contain title'')
              else if \<not> truthy labels then Inl (KeyError ''group_config item must contain labels'')
              else if \<not> is_list labels then Inl (TypeError ''group_config labels must be an Array'')
              else Inr ())
      | _ \<Rightarrow> Inl (TypeError ''group_config items must have key, value pairs of title and labels''))"

fun validate_groups :: "json list \<Rightarrow> error + unit" where
  "validate_groups [] = Inr ()"
| "validate_groups (config # rest) =
     (case validate_group config of Inl e \<Rightarrow> Inl e | Inr u \<Rightarrow> validate_groups rest)"

definition validate_config :: "json \<Rightarrow> error + unit" where
  "validate_config config =
     (case config of
        JObj kvs \<Rightarrow>
          (let header_prefix = dict_get kvs ''header_prefix'';
               group_config = dict_get kvs ''group_config''
           in if \<not> truthy header_prefix
              then Inl (KeyError ''Configuration Must Contain header_prefix'')
              else (case group_config of
                      JArr groups \<Rightarrow> validate_groups groups
                    | _ \<Rightarrow> Inl (TypeError ''group_config must be an Array'')))
      | _ \<Rightarrow> Inl (TypeError ''Configuration does not contain required key, value pairs''))"

section \<open>The version number: \<open>ChangelogCI._get_version_number\<close>\<close>

text \<open>\<open>str.lower\<close> on the letters A to Z; every other character is kept.\<close>

definition lower_char :: "char \<Rightarrow> char" where
  "lower_char c =
     (case map_of (zip ''ABCDEFGHIJKLMNOPQRSTUVWXYZ'' ''abcdefghijklmnopqrstuvwxyz'') c of
        Some d \<Rightarrow> d
      | None \<Rightarrow> c)"

definition lower :: "string \<Rightarrow> string" where
  "lower s = map lower_char s"

definition startswith :: "string \<Rightarrow> string \<Rightarrow> bool" where
  "startswith s p = (take (length p) s = p)"

text \<open>
  \<open>str.split(sep)\<close> with a separator of one character: the string is cut at every
  occurrence of the separator, and empty pieces are kept.
\<close>

fun split_str :: "char \<Rightarrow> string \<Rightarrow> string list" where
  "split_str sep [] = [[]]"
| "split_str sep (c # cs) =
     (if c = sep then [] # split_str sep cs
      else (case split_str sep cs of
              [] \<Rightarrow> [[c]]
            | w # ws \<Rightarrow> (c # w) # ws))"

text \<open>
  \<open>slices[1]\<close> raises IndexError when the title holds no space; the \<open>except\<close> clause
  swallows it and the version stays empty.
\<close>

definition get_version_number :: "string \<Rightarrow> string" where
  "get_version_number title =
     (if startswith (lower title) ''release''
      then (case split_str (CHR '' '') title of
              s0 # s1 # rest \<Rightarrow> s1
            | _ \<Rightarrow> [])
      else [])"

section \<open>The GitHub API\<close>

text \<open>
  The two endpoints the script calls are parameters of the model: each maps a URL and the
  request headers to a response. The JSON bodies carry the keys the script reads.
\<close>

record release_response =
  rel_status_code :: int
  published_at :: string

record api_label =
  label_name :: string

record search_item =
  item_title :: string
  item_number :: int
  html_url :: string
  item_labels :: "api_label list"

record search_response =
  search_status_code :: int
  total_count :: int
  search_items :: "search_item list"

record github =
  releases_latest :: "string \<Rightarrow> (string \<times> string) list \<Rightarrow> release_response"
  search_issues :: "string \<Rightarrow> (string \<times> string) list \<Rightarrow> search_response"

datatype log_level = WARNING | ERROR

type_synonym log = "(log_level \<times> string) list"

record config =
  header_prefix :: string
  group_config :: "group_cfg list"

text \<open>
  The object \<open>self\<close>. \<open>event_title\<close> is what \<open>_pull_request_title\<close> reads from the webhook
  payload; \<open>changelog_config\<close> is \<open>self.config\<close>.
\<close>

record changelog_ci =
  repository :: string
  event_title :: string
  changelog_config :: config
  token :: "string option"

definition get_request_headers :: "changelog_ci \<Rightarrow> (string \<times> string) list" where
  "get_request_headers self =
     (case token self of
        Some t \<Rightarrow>
          if t \<noteq> []
          then [(''Accept'', ''application/vnd.github.v3+json''), (''authorization'', ''Bearer '' @ t)]
          else [(''Accept'', ''application/vnd.github.v3+json'')]
      | None \<Rightarrow> [(''Accept'', ''application/vnd.github.v3+json'')])"

definition release_url :: "string \<Rightarrow> string" where
  "release_url repo_name = ''https://api.github.com/repos/'' @ repo_name @ ''/releases/latest''"

text \<open>\<open>ChangelogCI._get_latest_release_date\<close>: the date and what it logs.\<close>

definition get_latest_release_date :: "changelog_ci \<Rightarrow> github \<Rightarrow> string \<times> log" where
  "get_latest_release_date self gh =
     (let response = releases_latest gh (release_url (repository self)) (get_request_headers self)
      in if rel_status_code response = 200
         then (published_at response, [])
         else ([], [(WARNING, ''Could not find any release for '' @ repository self
                              @ '', status code: '' @ str_int (rel_status_code response))]))"

definition search_url :: "string \<Rightarrow> string \<Rightarrow> string" where
  "search_url repo_name merged_date_filter =
     ''https://api.github.com/search/issues?q=repo:'' @ repo_name
     @ ''+is:pr+is:merged+sort:author-date-asc+'' @ merged_date_filter @ ''&sort=merged''"

definition item_data :: "search_item \<Rightarrow> pull_request" where
  "item_data item =
     \<lparr>pr_title = item_title item, pr_number = item_number item, pr_url = html_url item,
      pr_labels = map label_name (item_labels item)\<rparr>"

text \<open>\<open>ChangelogCI._get_pull_requests_after_last_release\<close>.\<close>

definition get_pull_requests_after_last_release ::
  "changelog_ci \<Rightarrow> github \<Rightarrow> pull_request list \<times> log"
where
  "get_pull_requests_after_last_release self gh =
     (case get_latest_release_date self gh of
        (previous_release_date, log1) \<Rightarrow>
          (let merged_date_filter =
                 (if previous_release_date \<noteq> [] then ''merged:>='' @ previous_release_date else []);
               response = search_issues gh (search_url (repository self) merged_date_filter)
                            (get_request_headers self)
           in if search_status_code response = 200
              then (if total_count response > 0
                    then (map item_data (search_items response), log1)
                    else ([], log1 @ [(WARNING, ''There was no pull request made on ''
                                        @ repository self @ '' after last release.'')]))
              else ([], log1 @ [(ERROR, ''GitHub API returned error response for ''
                                  @ repository self @ '', status code: ''
                                  @ str_int (search_status_code response))])))"

section \<open>The changelog file\<close>

text \<open>
  The state of the changelog file is \<open>None\<close> when it does not exist and the characters
  stored in it otherwise. An open file is its stored characters and the position of the
  next read or write. The file is opened in text mode without a \<open>newline\<close> argument, so
  reading translates line endings and writing puts the platform's line separator for a
  newline; that separator is taken to be the newline character itself, as on the Linux
  runner of the action. Characters are single bytes; decoding is not modelled.
\<close>

record file_handle =
  content :: string
  pos :: nat

datatype file_mode = RPlus | WPlus

text \<open>\<open>ChangelogCI._get_file_mode\<close>: \<open>r+\<close> when the file exists, \<open>w+\<close> otherwise.\<close>

definition get_file_mode :: "string option \<Rightarrow> file_mode" where
  "get_file_mode fs = (if fs \<noteq> None then RPlus else WPlus)"

text \<open>
  \<open>open(filename, mode)\<close>: \<open>r+\<close> needs the file and keeps its text, \<open>w+\<close> creates the file
  or empties it. Both start at position 0.
\<close>

definition open_file :: "file_mode \<Rightarrow> string option \<Rightarrow> error + file_handle" where
  "open_file mode fs =
     (case mode of
        RPlus \<Rightarrow> (case fs of
                    None \<Rightarrow> Inl FileNotFoundError
                  | Some text \<Rightarrow> Inr \<lparr>content = text, pos = 0\<rparr>)
      | WPlus \<Rightarrow> Inr \<lparr>content = [], pos = 0\<rparr>)"

text \<open>
  What text mode does to the characters it reads: a carriage return followed by a newline
  becomes one newline, and a carriage return on its own becomes a newline.
\<close>

fun universal_newlines :: "string \<Rightarrow> string" where
  "universal_newlines [] = []"
| "universal_newlines [c] = [if c = CHR 0x0D then nl else c]"
| "universal_newlines (c # d # rest) =
     (if c = CHR 0x0D
      then (if d = nl then nl # universal_newlines rest else nl # universal_newlines (d # rest))
      else c # universal_newlines (d # rest))"

text \<open>
  \<open>f.read()\<close>: everything from the position to the end, with the line endings translated;
  the position moves to the end.
\<close>

definition fread :: "file_handle \<Rightarrow> string \<times> file_handle" where
  "fread f =
     (universal_newlines (drop (pos f) (content f)),
      f\<lparr>pos := max (pos f) (length (content f))\<rparr>)"

text \<open>\<open>f.seek(0, 0)\<close>.\<close>

definition fseek0 :: "file_handle \<Rightarrow> file_handle" where
  "fseek0 f = f\<lparr>pos := 0\<rparr>"

text \<open>
  \<open>f.write(s)\<close>: the characters of \<open>s\<close> replace the stored characters from the position on,
  and extend the file where they reach beyond its end; what is stored behind them stays,
  since the file is never truncated. The position is never beyond the end here.
\<close>

definition fwrite :: "string \<Rightarrow> file_handle \<Rightarrow> file_handle" where
  "fwrite s f =
     \<lparr>content = take (pos f) (content f) @ s @ drop (pos f + length s) (content f),
      pos = pos f + length s\<rparr>"

text \<open>\<open>f.writelines(items)\<close>: one write for each line, in order.\<close>

fun fwritelines :: "string list \<Rightarrow> file_handle \<Rightarrow> file_handle" where
  "fwritelines [] f = f"
| "fwritelines (l # ls) f = fwritelines ls (fwrite l f)"

section \<open>Writing: \<open>ChangelogCI.write_changelog\<close>\<close>

text \<open>The body of the loop \<open>for data in data_to_write\<close>.\<close>

definition write_group :: "file_handle \<Rightarrow> group_data \<Rightarrow> file_handle" where
  "write_group f data =
     (let title = d_title data;
          its = d_items data;
          f1 = (if title \<noteq> [] \<and> truthy_items its then fwrite title (fwrite [nl] f) else f);
          f2 = fwrite [nl] f1
      in fwritelines (lines_of its) f2)"

definition title_warning :: string where
  "title_warning =
     ''The title of the pull request is incorrect. Please use title like: ''
     @ ''``release <version_number> <other_text>``''"

text \<open>
  The result is the state of the changelog file after the call and the log, or the error
  that ends the call.
\<close>

definition write_changelog ::
  "changelog_ci \<Rightarrow> github \<Rightarrow> string option \<Rightarrow> error + (string option \<times> log)"
where
  "write_changelog self gh fs =
     (let version = get_version_number (event_title self)
      in if version = [] then Inr (fs, [(WARNING, title_warning)])
         else
           (case get_pull_requests_after_last_release self gh of
              (pull_request_data, lg) \<Rightarrow>
                if pull_request_data = [] then Inr (fs, lg)
                else
                  (let file_mode = get_file_mode fs;
                       data_to_write =
                         parse_data (group_config (changelog_config self)) pull_request_data
                   in case open_file file_mode fs of
                        Inl e \<Rightarrow> Inl e
                      | Inr f0 \<Rightarrow>
                          (case fread f0 of
                             (body, f1) \<Rightarrow>
                               (let version' = header_prefix (changelog_config self) @ '' '' @ version;
                                    f2 = fseek0 f1;
                                    f3 = fwrite (version' @ [nl]) f2;
                                    f4 = fwrite (replicate (length version') (CHR ''='')) f3;
                                    f5 = fwrite [nl] f4;
                                    f6 = foldl write_group f5 data_to_write;
                                    f7 = (if body \<noteq> [] then fwrite body (fwrite [nl, nl] f6) else f6)
                                in Inr (Some (content f7), lg))))))"

text \<open>
  Three notions for reasoning about the writes. \<open>written w old\<close> is the open file after the
  text \<open>w\<close> has been written from position 0 over a file that held \<open>old\<close>: the first
  characters of \<open>old\<close> are replaced and the position is behind \<open>w\<close>. \<open>group_text\<close> is the text
  that one pass of the loop body hands to \<open>f.write\<close> and \<open>f.writelines\<close>, in order.
  \<open>section_text\<close> is everything the run writes before it turns to the old text: the header,
  the underline and the text of every entry.
\<close>

definition written :: "string \<Rightarrow> string \<Rightarrow> file_handle" where
  "written w old = \<lparr>content = w @ drop (length w) old, pos = length w\<rparr>"

definition group_text :: "group_data \<Rightarrow> string" where
  "group_text data =
     (if d_title data \<noteq> [] \<and> truthy_items (d_items data) then [nl] @ d_title data else [])
     @ [nl] @ concat (lines_of (d_items data))"

definition section_text :: "changelog_ci \<Rightarrow> string \<Rightarrow> pull_request list \<Rightarrow> string" where
  "section_text self v prs =
     (header_prefix (changelog_config self) @ '' '' @ v) @ [nl]
     @ replicate (length (header_prefix (changelog_config self) @ '' '' @ v)) (CHR ''='')
     @ [nl]
     @ concat (map group_text (parse_data (group_config (changelog_config self)) prs))"

section \<open>The specification's wording, for comparison\<close>

text \<open>
  The specification speaks of whitespace-separated tokens of the title: the maximal runs of
  characters that are not whitespace.
\<close>

definition is_space :: "char \<Rightarrow> bool" where
  "is_space c = (c \<in> set [CHR '' '', CHR 0x09, CHR 0x0A, CHR 0x0B, CHR 0x0C, CHR 0x0D])"

fun spec_tokens_from :: "string \<Rightarrow> string \<Rightarrow> string list" where
  "spec_tokens_from cur [] = (if cur = [] then [] else [cur])"
| "spec_tokens_from cur (c # cs) =
     (if is_space c
      then (if cur = [] then spec_tokens_from [] cs else cur # spec_tokens_from [] cs)
      else spec_tokens_from (cur @ [c]) cs)"

definition spec_whitespace_tokens :: "string \<Rightarrow> string list" where
  "spec_whitespace_tokens title = spec_tokens_from [] title"

text \<open>
  The specification's layout of the start of a section and of a group with a title and
  items: a blank line, the title line, a blank line, the bullet lines.
\<close>

definition spec_section_start :: "string \<Rightarrow> string" where
  "spec_section_start header = header @ [nl] @ replicate (length header) (CHR ''='') @ [nl]"

definition spec_titled_block :: "string \<Rightarrow> string list \<Rightarrow> string" where
  "spec_titled_block title_line bullets = [nl] @ title_line @ [nl] @ [nl] @ concat bullets"

section \<open>Example inputs\<close>

definition ex_pr1 :: pull_request where
  "ex_pr1 = \<lparr>pr_title = ''Fix crash'', pr_number = 1, pr_url = ''http://x/1'',
             pr_labels = [''bug'']\<rparr>"

definition ex_pr2 :: pull_request where
  "ex_pr2 = \<lparr>pr_title = ''Add search'', pr_number = 2, pr_url = ''http://x/2'',
             pr_labels = [''bug'', ''feature'']\<rparr>"

definition ex_group_a :: group_cfg where
  "ex_group_a = \<lparr>cfg_title = ''A'', cfg_labels = [''bug'']\<rparr>"

definition ex_group_b :: group_cfg where
  "ex_group_b = \<lparr>cfg_title = ''B'', cfg_labels = [''feature'']\<rparr>"

text \<open>The end-to-end example of the specification.\<close>

definition ex_self :: "string \<Rightarrow> changelog_ci" where
  "ex_self title =
     \<lparr>repository = ''o/r'', event_title = title,
      changelog_config =
        \<lparr>header_prefix = ''Version:'',
         group_config = [\<lparr>cfg_title = ''Bug Fixes'', cfg_labels = [''bug'']\<rparr>]\<rparr>,
      token = None\<rparr>"

definition ex_search :: "int \<Rightarrow> search_response" where
  "ex_search status =
     \<lparr>search_status_code = status, total_count = 1,
      search_items = [\<lparr>item_title = ''Fix crash'', item_number = 5, html_url = ''http://x/5'',
                       item_labels = [\<lparr>label_name = ''bug''\<rparr>]\<rparr>]\<rparr>"

definition ex_search_empty :: search_response where
  "ex_search_empty = \<lparr>search_status_code = 200, total_count = 0, search_items = []\<rparr>"

definition ex_github :: "int \<Rightarrow> search_response \<Rightarrow> github" where
  "ex_github release_status response =
     \<lparr>releases_latest = (\<lambda>url headers. \<lparr>rel_status_code = release_status,
                                          published_at = ''2020-01-01T00:00:00Z''\<rparr>),
      search_issues = (\<lambda>url headers. response)\<rparr>"

section \<open>Properties of the grouping\<close>

subsection \<open>One step of the inner loop\<close>

lemma group_loop_done:
  "\<not> i < length pool \<Longrightarrow> group_loop labels i pool acc = (acc, pool)"
  by (simp add: group_loop.simps)

lemma group_loop_match:
  "i < length pool \<Longrightarrow> label_match labels (pool ! i) \<Longrightarrow>
   group_loop labels i pool acc =
   group_loop labels (Suc i) (remove1 (pool ! i) pool) (acc @ [get_changelog_line (pool ! i)])"
  by (simp add: group_loop.simps [of labels i pool acc] Let_def)

lemma group_loop_skip:
  "i < length pool \<Longrightarrow> \<not> label_match labels (pool ! i) \<Longrightarrow>
   group_loop labels i pool acc = group_loop labels (Suc i) pool acc"
  by (simp add: group_loop.simps [of labels i pool acc] Let_def)

subsection \<open>Lines are neither lost nor duplicated\<close>

text \<open>
  Every step that appends a line to the group removes one occurrence of the record it came
  from, so the lines collected so far together with the lines of the pool stay the same
  multiset.
\<close>

lemma group_loop_mset:
  "group_loop labels i pool acc = (its, pool') \<Longrightarrow>
   mset its + image_mset get_changelog_line (mset pool') =
   mset acc + image_mset get_changelog_line (mset pool)"
proof (induction labels i pool acc rule: group_loop.induct)
  case (1 labels i pool acc)
  show ?case
  proof (cases "i < length pool")
    case False
    with "1.prems" show ?thesis
      by (simp add: group_loop_done)
  next
    case True
    note lt = True
    show ?thesis
    proof (cases "label_match labels (pool ! i)")
      case True
      with lt "1.prems" have
        "group_loop labels (Suc i) (remove1 (pool ! i) pool)
           (acc @ [get_changelog_line (pool ! i)]) = (its, pool')"
        by (simp add: group_loop_match)
      with "1.IH"(1) [OF lt refl True] have
        "mset its + image_mset get_changelog_line (mset pool') =
         mset (acc @ [get_changelog_line (pool ! i)]) +
         image_mset get_changelog_line (mset (remove1 (pool ! i) pool))"
        by simp
      moreover from lt have "pool ! i \<in># mset pool"
        by simp
      ultimately show ?thesis
        by (simp add: image_mset_Diff)
    next
      case False
      with lt "1.prems" have "group_loop labels (Suc i) pool acc = (its, pool')"
        by (simp add: group_loop_skip)
      with "1.IH"(2) [OF lt refl False] show ?thesis
        by simp
    qed
  qed
qed

lemma all_lines_append: "all_lines (xs @ ys) = all_lines xs @ all_lines ys"
  by (simp add: all_lines_def)

lemma groups_loop_mset:
  "groups_loop gc pool data = (data', pool') \<Longrightarrow>
   mset (all_lines data') + image_mset get_changelog_line (mset pool') =
   mset (all_lines data) + image_mset get_changelog_line (mset pool)"
proof (induction gc arbitrary: pool data)
  case Nil
  then show ?case
    by simp
next
  case (Cons config rest)
  obtain its mid where step: "group_loop (cfg_labels config) 0 pool [] = (its, mid)"
    by (cases "group_loop (cfg_labels config) 0 pool []")
  let ?entry = "\<lparr>d_title = ''#### '' @ cfg_title config @ [nl, nl], d_items = Listed its\<rparr>"
  from Cons.prems step have "groups_loop rest mid (data @ [?entry]) = (data', pool')"
    by simp
  from Cons.IH [OF this] have
    "mset (all_lines data') + image_mset get_changelog_line (mset pool') =
     mset (all_lines data) + mset its + image_mset get_changelog_line (mset mid)"
    by (simp add: all_lines_append) (simp add: all_lines_def)
  moreover from group_loop_mset [OF step] have
    "mset its + image_mset get_changelog_line (mset mid) =
     image_mset get_changelog_line (mset pool)"
    by simp
  ultimately show ?case
    by (simp add: add.assoc)
qed

text \<open>
  Claim C9. Over all the groups \<open>_parse_data\<close> returns, the rendered lines are exactly the
  lines of the fetched records, each as often as its record was fetched: no record is
  dropped and none is rendered twice, whatever the labels of the groups.
\<close>

theorem parse_data_partition:
  "mset (all_lines (parse_data gc prs)) = image_mset get_changelog_line (mset prs)"
proof (cases "gc = []")
  case True
  then show ?thesis
    by (simp add: parse_data_def all_lines_def)
next
  case False
  obtain data pool where run: "groups_loop gc prs [] = (data, pool)"
    by (cases "groups_loop gc prs []")
  from groups_loop_mset [OF run] have total:
    "mset (all_lines data) + image_mset get_changelog_line (mset pool) =
     image_mset get_changelog_line (mset prs)"
    by (simp add: all_lines_def)
  show ?thesis
  proof (cases "pool = []")
    case True
    with False run total show ?thesis
      by (simp add: parse_data_def)
  next
    case nonempty: False
    have "all_lines (data @ [other_changes pool]) = all_lines data @ map get_changelog_line pool"
      by (simp add: all_lines_def other_changes_def)
    with False run nonempty total show ?thesis
      by (simp add: parse_data_def)
  qed
qed

text \<open>
  Claim C1, at the input where it fails. Group A takes the label \<open>bug\<close> and group B the
  label \<open>feature\<close>; the first record carries \<open>bug\<close>, the second carries both, so the
  second matches A and B. Removing the first record while the list is iterated moves the
  second into the slot the iterator has already passed, so group A never sees it and group
  B takes it.
\<close>

theorem parse_data_second_match_skipped:
  "label_match (cfg_labels ex_group_a) ex_pr2
   \<and> label_match (cfg_labels ex_group_b) ex_pr2
   \<and> parse_data [ex_group_a, ex_group_b] [ex_pr1, ex_pr2] =
       [\<lparr>d_title = ''#### A'' @ [nl, nl],
         d_items = Listed [''* [#1](http://x/1): Fix crash'' @ [nl]]\<rparr>,
        \<lparr>d_title = ''#### B'' @ [nl, nl],
         d_items = Listed [''* [#2](http://x/2): Add search'' @ [nl]]\<rparr>]"
  by (simp add: parse_data_def ex_group_a_def ex_group_b_def ex_pr1_def ex_pr2_def
      group_loop.simps label_match_def get_changelog_line_def str_int_def str_nat.simps
      digit_char_def)

section \<open>Properties of the validation\<close>

lemma validate_group_ok_iff:
  "validate_group g = Inr () \<longleftrightarrow>
   (\<exists>kvs. g = JObj kvs \<and> truthy (dict_get kvs ''title'') \<and>
          truthy (dict_get kvs ''labels'') \<and> is_list (dict_get kvs ''labels''))"
  by (cases g) (simp_all add: validate_group_def Let_def)

lemma validate_groups_ok_iff:
  "validate_groups gs = Inr () \<longleftrightarrow> (\<forall>g \<in> set gs. validate_group g = Inr ())"
  by (induction gs) (auto split: sum.splits)

lemma validate_groups_raises:
  assumes "g \<in> set gs" and "validate_group g \<noteq> Inr ()"
  shows "isl (validate_groups gs)"
proof -
  from assms have "validate_groups gs \<noteq> Inr ()"
    by (auto simp: validate_groups_ok_iff)
  then show ?thesis
    by (cases "validate_groups gs") simp_all
qed

lemma validate_config_ok_iff:
  "validate_config config = Inr () \<longleftrightarrow>
   (\<exists>kvs gs. config = JObj kvs \<and> truthy (dict_get kvs ''header_prefix'') \<and>
             dict_get kvs ''group_config'' = JArr gs \<and>
             (\<forall>g \<in> set gs. validate_group g = Inr ()))"
proof (cases config)
  case (JObj kvs)
  show ?thesis
    by (cases "dict_get kvs ''group_config''")
       (simp_all add: JObj validate_config_def Let_def validate_groups_ok_iff)
qed (simp_all add: validate_config_def)

text \<open>
  Claim C6. A mapping is accepted when its \<open>header_prefix\<close> is present and true (a non-empty
  string in particular), its \<open>group_config\<close> is a list, and every element of that list is a
  mapping with a true \<open>title\<close> and a non-empty list \<open>labels\<close>. A mapping is rejected with an
  exception when \<open>header_prefix\<close> is missing, when \<open>group_config\<close> is not a list, and when
  some element of \<open>group_config\<close> is a mapping without \<open>title\<close> or without \<open>labels\<close>.
\<close>

theorem validate_config_accepts_and_rejects:
  "(config = JObj kvs \<and> map_of kvs ''header_prefix'' = Some hv \<and> truthy hv \<and>
    map_of kvs ''group_config'' = Some (JArr gs) \<and>
    (\<forall>g \<in> set gs. \<exists>gk tv ls. g = JObj gk \<and> map_of gk ''title'' = Some tv \<and> truthy tv \<and>
                               map_of gk ''labels'' = Some (JArr ls) \<and> ls \<noteq> [])
    \<longrightarrow> validate_config config = Inr ())
   \<and> (config = JObj kvs \<and> map_of kvs ''header_prefix'' = None
        \<longrightarrow> isl (validate_config config))
   \<and> (config = JObj kvs \<and> \<not> is_list (dict_get kvs ''group_config'')
        \<longrightarrow> isl (validate_config config))
   \<and> (config = JObj kvs \<and> dict_get kvs ''group_config'' = JArr gs \<and> entry \<in> set gs \<and>
       entry = JObj ek \<and> (map_of ek ''title'' = None \<or> map_of ek ''labels'' = None)
        \<longrightarrow> isl (validate_config config))"
proof (intro conjI impI)
  assume a: "config = JObj kvs \<and> map_of kvs ''header_prefix'' = Some hv \<and> truthy hv \<and>
    map_of kvs ''group_config'' = Some (JArr gs) \<and>
    (\<forall>g \<in> set gs. \<exists>gk tv ls. g = JObj gk \<and> map_of gk ''title'' = Some tv \<and> truthy tv \<and>
                               map_of gk ''labels'' = Some (JArr ls) \<and> ls \<noteq> [])"
  then have "\<forall>g \<in> set gs. validate_group g = Inr ()"
    by (fastforce simp: validate_group_ok_iff dict_get_def)
  with a show "validate_config config = Inr ()"
    by (simp add: validate_config_ok_iff dict_get_def)
next
  assume "config = JObj kvs \<and> map_of kvs ''header_prefix'' = None"
  then show "isl (validate_config config)"
    by (simp add: validate_config_def dict_get_def)
next
  assume "config = JObj kvs \<and> \<not> is_list (dict_get kvs ''group_config'')"
  then show "isl (validate_config config)"
    by (cases "dict_get kvs ''group_config''") (simp_all add: validate_config_def Let_def)
next
  assume a: "config = JObj kvs \<and> dict_get kvs ''group_config'' = JArr gs \<and> entry \<in> set gs \<and>
       entry = JObj ek \<and> (map_of ek ''title'' = None \<or> map_of ek ''labels'' = None)"
  then have "validate_group entry \<noteq> Inr ()"
    by (auto simp: validate_group_ok_iff dict_get_def)
  with a have "isl (validate_groups gs)"
    by (blast intro: validate_groups_raises)
  with a show "isl (validate_config config)"
    by (simp add: validate_config_def Let_def)
qed

text \<open>
  The four parts of C6 at concrete configurations: a valid one, one without
  \<open>header_prefix\<close>, one whose \<open>group_config\<close> is a string, and one whose only group has no
  \<open>title\<close>.
\<close>

theorem validate_config_accepts_and_rejects_witness:
  "validate_config
     (JObj [(''header_prefix'', JStr ''Version:''),
            (''group_config'',
             JArr [JObj [(''title'', JStr ''Bug Fixes''), (''labels'', JArr [JStr ''bug''])]])])
     = Inr ()
   \<and> isl (validate_config (JObj [(''group_config'', JArr [])]))
   \<and> isl (validate_config (JObj [(''header_prefix'', JStr ''Version:''),
                                 (''group_config'', JStr ''bug'')]))
   \<and> isl (validate_config
            (JObj [(''header_prefix'', JStr ''Version:''),
                   (''group_config'', JArr [JObj [(''labels'', JArr [JStr ''bug''])]])]))"
proof (intro conjI)
  show "validate_config
     (JObj [(''header_prefix'', JStr ''Version:''),
            (''group_config'',
             JArr [JObj [(''title'', JStr ''Bug Fixes''), (''labels'', JArr [JStr ''bug''])]])])
     = Inr ()"
    using validate_config_accepts_and_rejects
      [of "JObj [(''header_prefix'', JStr ''Version:''),
            (''group_config'',
             JArr [JObj [(''title'', JStr ''Bug Fixes''), (''labels'', JArr [JStr ''bug''])]])]"
          "[(''header_prefix'', JStr ''Version:''),
            (''group_config'',
             JArr [JObj [(''title'', JStr ''Bug Fixes''), (''labels'', JArr [JStr ''bug''])]])]"
          "JStr ''Version:''"
          "[JObj [(''title'', JStr ''Bug Fixes''), (''labels'', JArr [JStr ''bug''])]]"]
    by simp
next
  show "isl (validate_config (JObj [(''group_config'', JArr [])]))"
    using validate_config_accepts_and_rejects
      [of "JObj [(''group_config'', JArr [])]" "[(''group_config'', JArr [])]"]
    by simp
next
  show "isl (validate_config (JObj [(''header_prefix'', JStr ''Version:''),
                                 (''group_config'', JStr ''bug'')]))"
    using validate_config_accepts_and_rejects
      [of "JObj [(''header_prefix'', JStr ''Version:''), (''group_config'', JStr ''bug'')]"
          "[(''header_prefix'', JStr ''Version:''), (''group_config'', JStr ''bug'')]"]
    by (simp add: dict_get_def)
next
  show "isl (validate_config
            (JObj [(''header_prefix'', JStr ''Version:''),
                   (''group_config'', JArr [JObj [(''labels'', JArr [JStr ''bug''])]])]))"
    using validate_config_accepts_and_rejects
      [of "JObj [(''header_prefix'', JStr ''Version:''),
                   (''group_config'', JArr [JObj [(''labels'', JArr [JStr ''bug''])]])]"
          "[(''header_prefix'', JStr ''Version:''),
                   (''group_config'', JArr [JObj [(''labels'', JArr [JStr ''bug''])]])]"
          _ "[JObj [(''labels'', JArr [JStr ''bug''])]]"
          "JObj [(''labels'', JArr [JStr ''bug''])]" "[(''labels'', JArr [JStr ''bug''])]"]
    by (simp add: dict_get_def)
qed

text \<open>
  Claim C10. The validation tests truth values and container types only: this configuration,
  whose \<open>header_prefix\<close> and \<open>title\<close> are numbers and whose \<open>labels\<close> are numbers, is accepted.
\<close>

theorem validate_config_ignores_element_types:
  "validate_config
     (JObj [(''header_prefix'', JInt 7),
            (''group_config'',
             JArr [JObj [(''title'', JInt 3), (''labels'', JArr [JInt 1, JInt 2])]])])
   = Inr ()"
  by (simp add: validate_config_def validate_group_def dict_get_def)

section \<open>Properties of the release lookup\<close>

text \<open>
  Claim C8. When the latest-release endpoint answers with status 200, the result is the
  \<open>published_at\<close> string of the answer and nothing is logged. With any other status the
  result is the empty string and exactly one warning is logged; the call returns a value in
  both cases.
\<close>

theorem release_date_by_status:
  "(rel_status_code (releases_latest gh (release_url (repository self)) (get_request_headers self)) = 200
      \<longrightarrow> get_latest_release_date self gh =
            (published_at (releases_latest gh (release_url (repository self))
                             (get_request_headers self)), []))
   \<and> (rel_status_code (releases_latest gh (release_url (repository self)) (get_request_headers self)) \<noteq> 200
      \<longrightarrow> get_latest_release_date self gh =
            ([], [(WARNING, ''Could not find any release for '' @ repository self
                    @ '', status code: ''
                    @ str_int (rel_status_code (releases_latest gh (release_url (repository self))
                                                  (get_request_headers self))))]))"
proof -
  let ?response = "releases_latest gh (release_url (repository self)) (get_request_headers self)"
  show ?thesis
  proof (cases "rel_status_code ?response = 200")
    case True
    then show ?thesis
      by (simp add: get_latest_release_date_def)
  next
    case False
    then show ?thesis
      by (simp add: get_latest_release_date_def Let_def)
  qed
qed

theorem release_date_by_status_witness:
  "get_latest_release_date (ex_self ''Release 2.0.0 launch'') (ex_github 200 (ex_search 200))
     = (''2020-01-01T00:00:00Z'', [])
   \<and> get_latest_release_date (ex_self ''Release 2.0.0 launch'') (ex_github 404 (ex_search 200))
     = ([], [(WARNING, ''Could not find any release for o/r, status code: 404'')])"
  using release_date_by_status [of "ex_github 200 (ex_search 200)" "ex_self ''Release 2.0.0 launch''"]
        release_date_by_status [of "ex_github 404 (ex_search 200)" "ex_self ''Release 2.0.0 launch''"]
  by (simp add: ex_github_def ex_self_def str_int_def str_nat.simps digit_char_def)

section \<open>Properties of the version number\<close>

text \<open>
  Splitting at a separator: the first piece is the text before the first separator, and the
  remaining pieces are the pieces of what follows it.
\<close>

lemma split_str_hd_tl:
  "split_str sep s =
     takeWhile (\<lambda>c. c \<noteq> sep) s #
       (if sep \<in> set s then split_str sep (tl (dropWhile (\<lambda>c. c \<noteq> sep) s)) else [])"
  by (induction s) (auto split: list.splits)

lemma write_changelog_no_version:
  "get_version_number (event_title self) = [] \<Longrightarrow>
   write_changelog self gh fs = Inr (fs, [(WARNING, title_warning)])"
  by (simp add: write_changelog_def Let_def)

text \<open>
  Claim C2 as the code has it. The title is cut at every single space character, not at
  whitespace. When the title starts with \<open>release\<close> in any letter case and holds a space, the
  version is the text between the first space and the second space (or the end of the
  title); otherwise the version is empty. With an empty version \<open>write_changelog\<close> returns
  normally, leaves the changelog file as it was, and logs one warning.
\<close>

theorem version_from_title:
  "get_version_number title =
     (if startswith (lower title) ''release'' \<and> CHR '' '' \<in> set title
      then takeWhile (\<lambda>c. c \<noteq> CHR '' '') (tl (dropWhile (\<lambda>c. c \<noteq> CHR '' '') title))
      else [])
   \<and> (get_version_number (event_title self) = []
        \<longrightarrow> write_changelog self gh fs = Inr (fs, [(WARNING, title_warning)]))"
proof (intro conjI impI)
  show "get_version_number title =
     (if startswith (lower title) ''release'' \<and> CHR '' '' \<in> set title
      then takeWhile (\<lambda>c. c \<noteq> CHR '' '') (tl (dropWhile (\<lambda>c. c \<noteq> CHR '' '') title))
      else [])"
  proof (cases "CHR '' '' \<in> set title")
    case True
    then have "split_str (CHR '' '') title =
       takeWhile (\<lambda>c. c \<noteq> CHR '' '') title #
       takeWhile (\<lambda>c. c \<noteq> CHR '' '') (tl (dropWhile (\<lambda>c. c \<noteq> CHR '' '') title)) #
       (if CHR '' '' \<in> set (tl (dropWhile (\<lambda>c. c \<noteq> CHR '' '') title))
        then split_str (CHR '' '')
               (tl (dropWhile (\<lambda>c. c \<noteq> CHR '' '') (tl (dropWhile (\<lambda>c. c \<noteq> CHR '' '') title))))
        else [])"
      using split_str_hd_tl [of "CHR '' ''" title]
            split_str_hd_tl [of "CHR '' ''" "tl (dropWhile (\<lambda>c. c \<noteq> CHR '' '') title)"]
      by simp
    with True show ?thesis
      by (simp add: get_version_number_def)
  next
    case False
    then have "split_str (CHR '' '') title = [takeWhile (\<lambda>c. c \<noteq> CHR '' '') title]"
      using split_str_hd_tl [of "CHR '' ''" title] by simp
    with False show ?thesis
      by (simp add: get_version_number_def)
  qed
next
  assume "get_version_number (event_title self) = []"
  then show "write_changelog self gh fs = Inr (fs, [(WARNING, title_warning)])"
    by (rule write_changelog_no_version)
qed

text \<open>The three titles of the specification, and a run on a title that is no release.\<close>

theorem version_from_title_witness:
  "get_version_number ''Release 1.2.3 notes'' = ''1.2.3''
   \<and> get_version_number ''Fix bug'' = []
   \<and> get_version_number ''release'' = []
   \<and> write_changelog (ex_self ''Fix bug'') (ex_github 200 (ex_search 200)) (Some ''old'')
       = Inr (Some ''old'', [(WARNING, title_warning)])"
  using version_from_title [of "''Release 1.2.3 notes''" "ex_self ''Fix bug''"
                               "ex_github 200 (ex_search 200)" "Some ''old''"]
        version_from_title [of "''Fix bug''" "ex_self ''Fix bug''"
                               "ex_github 200 (ex_search 200)" "Some ''old''"]
        version_from_title [of "''release''" "ex_self ''Fix bug''"
                               "ex_github 200 (ex_search 200)" "Some ''old''"]
  by (simp add: startswith_def lower_def lower_char_def ex_self_def)

text \<open>
  Claim C2 as stated fails on a title with two spaces after the keyword: the title starts
  with \<open>release\<close>, its second whitespace-separated token is \<open>1.2.3\<close>, and the derived version
  is not \<open>1.2.3\<close> (it is empty, the piece between the two spaces).
\<close>

theorem version_double_space_counterexample:
  "startswith (lower ''Release  1.2.3'') ''release''
   \<and> spec_whitespace_tokens ''Release  1.2.3'' ! 1 = ''1.2.3''
   \<and> get_version_number ''Release  1.2.3'' \<noteq> ''1.2.3''"
  by (simp add: startswith_def lower_def lower_char_def spec_whitespace_tokens_def is_space_def
      get_version_number_def)

section \<open>Properties of the writer\<close>

subsection \<open>Writes from the start of the file\<close>

lemma fwrite_written: "fwrite s (written w old) = written (w @ s) old"
  by (simp add: fwrite_def written_def add.commute)

lemma fwritelines_written: "fwritelines ls (written w old) = written (w @ concat ls) old"
  by (induction ls arbitrary: w) (simp_all add: fwrite_written)

lemma write_group_written: "write_group (written w old) d = written (w @ group_text d) old"
  by (simp add: write_group_def group_text_def Let_def fwrite_written fwritelines_written)

lemma foldl_write_group_written:
  "foldl write_group (written w old) ds = written (w @ concat (map group_text ds)) old"
  by (induction ds arbitrary: w) (simp_all add: write_group_written)

lemma open_read_seek:
  "open_file (get_file_mode fs) fs =
     Inr \<lparr>content = (case fs of None \<Rightarrow> [] | Some old \<Rightarrow> old), pos = 0\<rparr>"
  by (cases fs) (simp_all add: open_file_def get_file_mode_def)

lemma fread_start:
  "fread \<lparr>content = old, pos = 0\<rparr> =
     (universal_newlines old, \<lparr>content = old, pos = length old\<rparr>)"
  by (simp add: fread_def)

lemma universal_newlines_Nil_iff: "universal_newlines s = [] \<longleftrightarrow> s = []"
  by (induction s rule: universal_newlines.induct) simp_all

lemma universal_newlines_no_cr: "CHR 0x0D \<notin> set s \<Longrightarrow> universal_newlines s = s"
  by (induction s rule: universal_newlines.induct) auto

lemma fseek0_written: "fseek0 \<lparr>content = old, pos = n\<rparr> = written [] old"
  by (simp add: fseek0_def written_def)

lemma content_written_all: "length old \<le> length w \<Longrightarrow> content (written w old) = w"
  by (simp add: written_def)

lemma content_written: "content (written w old) = w @ drop (length w) old"
  by (simp add: written_def)

subsection \<open>The text of the file after a run that writes\<close>

text \<open>
  A run that resolves a version and fetches pull requests creates a missing file with the
  section. Over an existing file it writes the section and, when the text it read is not
  empty, two newlines and that text; the stored characters behind the written ones stay.
\<close>

lemma write_changelog_content:
  assumes v: "get_version_number (event_title self) = v" "v \<noteq> []"
    and prs: "get_pull_requests_after_last_release self gh = (prs, lg)" "prs \<noteq> []"
  shows "write_changelog self gh None = Inr (Some (section_text self v prs), lg)"
    and "write_changelog self gh (Some old) =
     Inr (Some ((section_text self v prs
                 @ (if old = [] then [] else [nl, nl] @ universal_newlines old))
                @ drop (length (section_text self v prs
                                @ (if old = [] then [] else [nl, nl] @ universal_newlines old)))
                    old),
          lg)"
proof -
  from v prs show "write_changelog self gh None = Inr (Some (section_text self v prs), lg)"
    by (simp add: write_changelog_def Let_def open_read_seek fread_start fseek0_written
        fwrite_written foldl_write_group_written content_written_all section_text_def)
  from v prs show "write_changelog self gh (Some old) =
     Inr (Some ((section_text self v prs
                 @ (if old = [] then [] else [nl, nl] @ universal_newlines old))
                @ drop (length (section_text self v prs
                                @ (if old = [] then [] else [nl, nl] @ universal_newlines old)))
                    old),
          lg)"
    by (simp add: write_changelog_def Let_def open_read_seek fread_start fseek0_written
        fwrite_written foldl_write_group_written universal_newlines_Nil_iff content_written
        section_text_def)
qed

subsection \<open>The shape of the returned entries\<close>

lemma groups_loop_shape:
  "groups_loop gc pool data = (data', pool') \<Longrightarrow>
   \<exists>its. length its = length gc \<and>
     data' = data @ map (\<lambda>(c, ls). \<lparr>d_title = ''#### '' @ cfg_title c @ [nl, nl], d_items = Listed ls\<rparr>)
                      (zip gc its)"
proof (induction gc arbitrary: pool data)
  case Nil
  then show ?case by simp
next
  case (Cons config rest)
  obtain ls mid where step: "group_loop (cfg_labels config) 0 pool [] = (ls, mid)"
    by (cases "group_loop (cfg_labels config) 0 pool []")
  let ?entry = "\<lparr>d_title = ''#### '' @ cfg_title config @ [nl, nl], d_items = Listed ls\<rparr>"
  from Cons.prems step have "groups_loop rest mid (data @ [?entry]) = (data', pool')"
    by simp
  from Cons.IH [OF this] obtain its where its: "length its = length rest"
    "data' = (data @ [?entry]) @
       map (\<lambda>(c, ls). \<lparr>d_title = ''#### '' @ cfg_title c @ [nl, nl], d_items = Listed ls\<rparr>)
         (zip rest its)"
    by blast
  then have "length (ls # its) = length (config # rest) \<and>
     data' = data @ map (\<lambda>(c, ls). \<lparr>d_title = ''#### '' @ cfg_title c @ [nl, nl], d_items = Listed ls\<rparr>)
                      (zip (config # rest) (ls # its))"
    by simp
  then show ?case by blast
qed

lemma groups_loop_titles:
  assumes "groups_loop gc pool [] = (data, pool')"
  shows "map d_title data = map (\<lambda>c. ''#### '' @ cfg_title c @ [nl, nl]) gc"
    and "\<forall>d \<in> set data. \<exists>t ls. d = \<lparr>d_title = ''#### '' @ t @ [nl, nl], d_items = Listed ls\<rparr>"
proof -
  from groups_loop_shape [OF assms] obtain its where its: "length its = length gc"
    "data = map (\<lambda>(c, ls). \<lparr>d_title = ''#### '' @ cfg_title c @ [nl, nl], d_items = Listed ls\<rparr>)
              (zip gc its)"
    by auto
  have "map d_title data = map (\<lambda>c. ''#### '' @ cfg_title c @ [nl, nl]) (map fst (zip gc its))"
    unfolding its(2) by (simp add: case_prod_unfold comp_def)
  with its(1) show "map d_title data = map (\<lambda>c. ''#### '' @ cfg_title c @ [nl, nl]) gc"
    by simp
  show "\<forall>d \<in> set data. \<exists>t ls. d = \<lparr>d_title = ''#### '' @ t @ [nl, nl], d_items = Listed ls\<rparr>"
    unfolding its(2) by auto
qed

lemma parse_data_entries:
  assumes "d \<in> set (parse_data gc prs)"
  shows "(d_title d = [] \<or> (\<exists>t. d_title d = ''#### '' @ t @ [nl, nl]))
         \<and> (d_title d \<noteq> [] \<longrightarrow> truthy_items (d_items d) = (lines_of (d_items d) \<noteq> []))"
proof (cases "gc = []")
  case True
  with assms show ?thesis
    by (simp add: parse_data_def)
next
  case False
  obtain data pool where run: "groups_loop gc prs [] = (data, pool)"
    by (cases "groups_loop gc prs []")
  from groups_loop_titles(2) [OF run] have cfg:
    "\<forall>d \<in> set data. \<exists>t ls. d = \<lparr>d_title = ''#### '' @ t @ [nl, nl], d_items = Listed ls\<rparr>" .
  from assms False run have "d \<in> set data \<or> (pool \<noteq> [] \<and> d = other_changes pool)"
    by (auto simp: parse_data_def split: if_splits)
  then show ?thesis
  proof
    assume "d \<in> set data"
    with cfg obtain t ls where "d = \<lparr>d_title = ''#### '' @ t @ [nl, nl], d_items = Listed ls\<rparr>"
      by blast
    then show ?thesis by simp
  next
    assume "pool \<noteq> [] \<and> d = other_changes pool"
    then have "d_title d = ''#### '' @ ''Other Changes'' @ [nl, nl]" 
      and "truthy_items (d_items d) = (lines_of (d_items d) \<noteq> [])"
      by (simp_all add: other_changes_def)
    then show ?thesis by blast
  qed
qed

lemma group_text_parse_data:
  assumes "d \<in> set (parse_data gc prs)"
  shows "group_text d =
     (if d_title d \<noteq> [] \<and> lines_of (d_items d) \<noteq> []
      then [nl] @ d_title d @ [nl] @ concat (lines_of (d_items d))
      else [nl] @ concat (lines_of (d_items d)))"
  using parse_data_entries [OF assms] by (auto simp: group_text_def)

text \<open>
  Claim C3 as the code has it. After a run that writes, the file starts with the header line
  \<open>header_prefix\<close>, a space and the version, then a line of as many \<open>=\<close> characters as the
  header has characters. Then follows the text of every returned entry, in order. An entry
  with a title and at least one line gives a newline, its title and a newline, then its
  lines; every other entry gives one newline and then its lines. Every title that is not
  empty is \<open>####\<close>, a space and a name, followed by two newlines. So between the title line
  and the first bullet line there are two blank lines, and one blank line before the title.
\<close>

theorem section_layout:
  assumes "get_version_number (event_title self) = v" and "v \<noteq> []"
    and "get_pull_requests_after_last_release self gh = (prs, lg)" and "prs \<noteq> []"
  shows "(\<exists>rest. write_changelog self gh fs =
            Inr (Some ((header_prefix (changelog_config self) @ '' '' @ v) @ [nl]
                       @ replicate (length (header_prefix (changelog_config self) @ '' '' @ v))
                           (CHR ''='')
                       @ [nl]
                       @ concat (map (\<lambda>d. if d_title d \<noteq> [] \<and> lines_of (d_items d) \<noteq> []
                                           then [nl] @ d_title d @ [nl] @ concat (lines_of (d_items d))
                                           else [nl] @ concat (lines_of (d_items d)))
                                   (parse_data (group_config (changelog_config self)) prs))
                       @ rest), lg))
         \<and> (\<forall>d \<in> set (parse_data (group_config (changelog_config self)) prs).
               d_title d = [] \<or> (\<exists>t. d_title d = ''#### '' @ t @ [nl, nl]))"
proof -
  have "map group_text (parse_data (group_config (changelog_config self)) prs) =
        map (\<lambda>d. if d_title d \<noteq> [] \<and> lines_of (d_items d) \<noteq> []
                 then [nl] @ d_title d @ [nl] @ concat (lines_of (d_items d))
                 else [nl] @ concat (lines_of (d_items d)))
          (parse_data (group_config (changelog_config self)) prs)"
    by (rule map_cong [OF refl]) (rule group_text_parse_data)
  then have same: "concat (map group_text (parse_data (group_config (changelog_config self)) prs)) =
        concat (map (\<lambda>d. if d_title d \<noteq> [] \<and> lines_of (d_items d) \<noteq> []
                 then [nl] @ d_title d @ [nl] @ concat (lines_of (d_items d))
                 else [nl] @ concat (lines_of (d_items d)))
          (parse_data (group_config (changelog_config self)) prs))"
    by (rule arg_cong)
  have layout: "section_text self v prs =
       (header_prefix (changelog_config self) @ '' '' @ v) @ [nl]
       @ replicate (length (header_prefix (changelog_config self) @ '' '' @ v)) (CHR ''='')
       @ [nl]
       @ concat (map (\<lambda>d. if d_title d \<noteq> [] \<and> lines_of (d_items d) \<noteq> []
                           then [nl] @ d_title d @ [nl] @ concat (lines_of (d_items d))
                           else [nl] @ concat (lines_of (d_items d)))
                   (parse_data (group_config (changelog_config self)) prs))"
    by (simp only: section_text_def same)
  have "\<exists>rest. write_changelog self gh fs = Inr (Some (section_text self v prs @ rest), lg)"
  proof (cases fs)
    case None
    with write_changelog_content(1) [OF assms] show ?thesis
      by simp
  next
    case (Some old)
    with write_changelog_content(2) [OF assms, of old] show ?thesis
      by simp
  qed
  with layout have
    "\<exists>rest. write_changelog self gh fs =
            Inr (Some ((header_prefix (changelog_config self) @ '' '' @ v) @ [nl]
                       @ replicate (length (header_prefix (changelog_config self) @ '' '' @ v))
                           (CHR ''='')
                       @ [nl]
                       @ concat (map (\<lambda>d. if d_title d \<noteq> [] \<and> lines_of (d_items d) \<noteq> []
                                           then [nl] @ d_title d @ [nl] @ concat (lines_of (d_items d))
                                           else [nl] @ concat (lines_of (d_items d)))
                                   (parse_data (group_config (changelog_config self)) prs))
                       @ rest), lg)"
    by simp
  moreover have "\<forall>d \<in> set (parse_data (group_config (changelog_config self)) prs).
               d_title d = [] \<or> (\<exists>t. d_title d = ''#### '' @ t @ [nl, nl])"
    using parse_data_entries by blast
  ultimately show ?thesis by blast
qed


subsection \<open>The end-to-end example of the specification\<close>

lemma ex_version: "get_version_number (event_title (ex_self ''Release 2.0.0 launch'')) = ''2.0.0''"
  by (simp add: ex_self_def get_version_number_def startswith_def lower_def lower_char_def)

lemma ex_fetch:
  "get_pull_requests_after_last_release (ex_self ''Release 2.0.0 launch'')
     (ex_github 404 (ex_search 200)) =
   ([\<lparr>pr_title = ''Fix crash'', pr_number = 5, pr_url = ''http://x/5'', pr_labels = [''bug'']\<rparr>],
    [(WARNING, ''Could not find any release for o/r, status code: 404'')])"
  by (simp add: get_pull_requests_after_last_release_def get_latest_release_date_def Let_def
      ex_self_def ex_github_def ex_search_def item_data_def str_int_def str_nat.simps
      digit_char_def)

lemma ex_parse:
  "parse_data [\<lparr>cfg_title = ''Bug Fixes'', cfg_labels = [''bug'']\<rparr>]
     [\<lparr>pr_title = ''Fix crash'', pr_number = 5, pr_url = ''http://x/5'', pr_labels = [''bug'']\<rparr>] =
   [\<lparr>d_title = ''#### Bug Fixes'' @ [nl, nl],
     d_items = Listed [''* [#5](http://x/5): Fix crash'' @ [nl]]\<rparr>]"
  by (simp add: parse_data_def group_loop.simps label_match_def get_changelog_line_def
      str_int_def str_nat.simps digit_char_def)

text \<open>The layout of C3 on the end-to-end example, written to a file that did not exist.\<close>

theorem section_layout_witness:
  "\<exists>rest. write_changelog (ex_self ''Release 2.0.0 launch'') (ex_github 404 (ex_search 200)) None =
     Inr (Some (''Version: 2.0.0'' @ [nl] @ ''=============='' @ [nl]
                @ [nl] @ ''#### Bug Fixes'' @ [nl] @ [nl] @ [nl]
                @ ''* [#5](http://x/5): Fix crash'' @ [nl] @ rest),
          [(WARNING, ''Could not find any release for o/r, status code: 404'')])"
proof -
  have two: "''2.0.0'' \<noteq> []" by simp
  have one: "[\<lparr>pr_title = ''Fix crash'', pr_number = 5, pr_url = ''http://x/5'',
               pr_labels = [''bug'']\<rparr>] \<noteq> []" by simp
  from section_layout [OF ex_version two ex_fetch one, of None]
  show ?thesis
    by (simp add: ex_self_def ex_parse)
qed

text \<open>
  Claim C3 as stated fails on the end-to-end example: the text the run writes has two blank
  lines between the title line and the bullet line, so it differs from the layout with
  exactly one blank line there.
\<close>

theorem section_layout_counterexample:
  "write_changelog (ex_self ''Release 2.0.0 launch'') (ex_github 404 (ex_search 200)) None =
     Inr (Some (''Version: 2.0.0'' @ [nl] @ ''=============='' @ [nl]
                @ [nl] @ ''#### Bug Fixes'' @ [nl] @ [nl] @ [nl]
                @ ''* [#5](http://x/5): Fix crash'' @ [nl]),
          [(WARNING, ''Could not find any release for o/r, status code: 404'')])
   \<and> ''Version: 2.0.0'' @ [nl] @ ''=============='' @ [nl]
                @ [nl] @ ''#### Bug Fixes'' @ [nl] @ [nl] @ [nl]
                @ ''* [#5](http://x/5): Fix crash'' @ [nl]
     \<noteq> spec_section_start ''Version: 2.0.0''
       @ spec_titled_block ''#### Bug Fixes'' [''* [#5](http://x/5): Fix crash'' @ [nl]]"
proof -
  have two: "''2.0.0'' \<noteq> []" by simp
  have one: "[\<lparr>pr_title = ''Fix crash'', pr_number = 5, pr_url = ''http://x/5'',
               pr_labels = [''bug'']\<rparr>] \<noteq> []" by simp
  have "write_changelog (ex_self ''Release 2.0.0 launch'') (ex_github 404 (ex_search 200)) None =
     Inr (Some (''Version: 2.0.0'' @ [nl] @ ''=============='' @ [nl]
                @ [nl] @ ''#### Bug Fixes'' @ [nl] @ [nl] @ [nl]
                @ ''* [#5](http://x/5): Fix crash'' @ [nl]),
          [(WARNING, ''Could not find any release for o/r, status code: 404'')])"
    using write_changelog_content(1) [OF ex_version two ex_fetch one]
    by (simp add: section_text_def ex_self_def ex_parse group_text_def)
  moreover have "''Version: 2.0.0'' @ [nl] @ ''=============='' @ [nl]
                @ [nl] @ ''#### Bug Fixes'' @ [nl] @ [nl] @ [nl]
                @ ''* [#5](http://x/5): Fix crash'' @ [nl]
     \<noteq> spec_section_start ''Version: 2.0.0''
       @ spec_titled_block ''#### Bug Fixes'' [''* [#5](http://x/5): Fix crash'' @ [nl]]"
    by (simp add: spec_section_start_def spec_titled_block_def)
  ultimately show ?thesis by blast
qed

subsection \<open>The old text behind the new section\<close>

text \<open>
  Claim C4 as stated fails on a file with CRLF line endings. The file holds \<open>v1\<close> and
  \<open>- a\<close>, each ended by a carriage return and a newline. After the run it holds the section,
  two newlines, and the two lines ended by a newline alone: the old content holds carriage
  returns and the new content holds none, so the old content is not in the file unchanged.
\<close>

theorem changelog_crlf_counterexample:
  "write_changelog (ex_self ''Release 2.0.0 launch'') (ex_github 404 (ex_search 200))
       (Some (''v1'' @ [CHR 0x0D, nl] @ ''- a'' @ [CHR 0x0D, nl])) =
     Inr (Some (''Version: 2.0.0'' @ [nl] @ ''=============='' @ [nl]
                @ [nl] @ ''#### Bug Fixes'' @ [nl] @ [nl] @ [nl]
                @ ''* [#5](http://x/5): Fix crash'' @ [nl]
                @ [nl, nl] @ ''v1'' @ [nl] @ ''- a'' @ [nl]),
          [(WARNING, ''Could not find any release for o/r, status code: 404'')])
   \<and> CHR 0x0D \<in> set (''v1'' @ [CHR 0x0D, nl] @ ''- a'' @ [CHR 0x0D, nl])
   \<and> CHR 0x0D \<notin> set (''Version: 2.0.0'' @ [nl] @ ''=============='' @ [nl]
                @ [nl] @ ''#### Bug Fixes'' @ [nl] @ [nl] @ [nl]
                @ ''* [#5](http://x/5): Fix crash'' @ [nl]
                @ [nl, nl] @ ''v1'' @ [nl] @ ''- a'' @ [nl])"
proof -
  have two: "''2.0.0'' \<noteq> []" by simp
  have one: "[\<lparr>pr_title = ''Fix crash'', pr_number = 5, pr_url = ''http://x/5'',
               pr_labels = [''bug'']\<rparr>] \<noteq> []" by simp
  have "write_changelog (ex_self ''Release 2.0.0 launch'') (ex_github 404 (ex_search 200))
       (Some (''v1'' @ [CHR 0x0D, nl] @ ''- a'' @ [CHR 0x0D, nl])) =
     Inr (Some (''Version: 2.0.0'' @ [nl] @ ''=============='' @ [nl]
                @ [nl] @ ''#### Bug Fixes'' @ [nl] @ [nl] @ [nl]
                @ ''* [#5](http://x/5): Fix crash'' @ [nl]
                @ [nl, nl] @ ''v1'' @ [nl] @ ''- a'' @ [nl]),
          [(WARNING, ''Could not find any release for o/r, status code: 404'')])"
    using write_changelog_content(2) [OF ex_version two ex_fetch one,
        of "''v1'' @ [CHR 0x0D, nl] @ ''- a'' @ [CHR 0x0D, nl]"]
    by (simp add: section_text_def ex_self_def ex_parse group_text_def)
  then show ?thesis
    by simp
qed

text \<open>
  Claim C4 as the code has it. For a run that resolves a version and fetches at least one
  pull request there is a non-empty section text, the same for every state of the file,
  such that: when the file did not exist it is created with exactly the section; when it
  existed, it starts with the section followed, when the old content is not empty, by
  exactly two newline characters and the old content as text mode reads it, every line
  ending translated to a newline; and when the old content holds no carriage return, the
  file is exactly the section, the two newlines and the old content unchanged.
\<close>

theorem changelog_prepended:
  assumes "get_version_number (event_title self) \<noteq> []"
    and "fst (get_pull_requests_after_last_release self gh) \<noteq> []"
  shows "\<exists>section lg. section \<noteq> []
           \<and> write_changelog self gh None = Inr (Some section, lg)
           \<and> (\<forall>old. \<exists>tail. write_changelog self gh (Some old) =
                  Inr (Some (section
                             @ (if old = [] then [] else [nl, nl] @ universal_newlines old)
                             @ tail), lg))
           \<and> (\<forall>old. CHR 0x0D \<notin> set old \<longrightarrow>
                  write_changelog self gh (Some old) =
                  Inr (Some (section @ (if old = [] then [] else [nl, nl] @ old)), lg))"
proof -
  obtain prs lg where r: "get_pull_requests_after_last_release self gh = (prs, lg)"
    by (cases "get_pull_requests_after_last_release self gh")
  with assms(2) have ne: "prs \<noteq> []" by simp
  let ?v = "get_version_number (event_title self)"
  let ?section = "section_text self ?v prs"
  note run = write_changelog_content [OF refl assms(1) r ne]
  have "?section \<noteq> []"
    by (simp add: section_text_def)
  moreover have "write_changelog self gh None = Inr (Some ?section, lg)"
    by (rule run(1))
  moreover have "\<forall>old. \<exists>tail. write_changelog self gh (Some old) =
                  Inr (Some (?section
                             @ (if old = [] then [] else [nl, nl] @ universal_newlines old)
                             @ tail), lg)"
    using run(2) by simp
  moreover have "\<forall>old. CHR 0x0D \<notin> set old \<longrightarrow>
                  write_changelog self gh (Some old) =
                  Inr (Some (?section @ (if old = [] then [] else [nl, nl] @ old)), lg)"
  proof (intro allI impI)
    fix old :: string
    assume "CHR 0x0D \<notin> set old"
    then have same: "universal_newlines old = old"
      by (rule universal_newlines_no_cr)
    from run(2) [of old] show "write_changelog self gh (Some old) =
                  Inr (Some (?section @ (if old = [] then [] else [nl, nl] @ old)), lg)"
      by (simp add: same)
  qed
  ultimately show ?thesis by blast
qed

text \<open>
  On the end-to-end example: a file without carriage returns keeps its content unchanged
  behind the section, and a file with a CRLF line ending keeps it with that ending
  translated.
\<close>

theorem changelog_prepended_witness:
  "get_version_number (event_title (ex_self ''Release 2.0.0 launch'')) \<noteq> []
   \<and> fst (get_pull_requests_after_last_release (ex_self ''Release 2.0.0 launch'')
            (ex_github 404 (ex_search 200))) \<noteq> []
   \<and> (\<exists>section lg. section \<noteq> []
         \<and> write_changelog (ex_self ''Release 2.0.0 launch'') (ex_github 404 (ex_search 200)) None
             = Inr (Some section, lg)
         \<and> write_changelog (ex_self ''Release 2.0.0 launch'') (ex_github 404 (ex_search 200))
             (Some ''old'') = Inr (Some (section @ [nl, nl] @ ''old''), lg)
         \<and> (\<exists>tail. write_changelog (ex_self ''Release 2.0.0 launch'')
                      (ex_github 404 (ex_search 200)) (Some (''a'' @ [CHR 0x0D, nl] @ ''b''))
                    = Inr (Some (section @ [nl, nl] @ ''a'' @ [nl] @ ''b'' @ tail), lg)))"
proof -
  have v: "get_version_number (event_title (ex_self ''Release 2.0.0 launch'')) \<noteq> []"
    by (simp add: ex_version)
  have p: "fst (get_pull_requests_after_last_release (ex_self ''Release 2.0.0 launch'')
            (ex_github 404 (ex_search 200))) \<noteq> []"
    by (simp add: ex_fetch)
  from changelog_prepended [OF v p] obtain sect lg where
    a: "sect \<noteq> []"
    and b: "write_changelog (ex_self ''Release 2.0.0 launch'') (ex_github 404 (ex_search 200)) None
             = Inr (Some sect, lg)"
    and c: "\<forall>old. \<exists>tail. write_changelog (ex_self ''Release 2.0.0 launch'')
                  (ex_github 404 (ex_search 200)) (Some old) =
                  Inr (Some (sect
                             @ (if old = [] then [] else [nl, nl] @ universal_newlines old)
                             @ tail), lg)"
    and d: "\<forall>old. CHR 0x0D \<notin> set old \<longrightarrow>
                  write_changelog (ex_self ''Release 2.0.0 launch'')
                    (ex_github 404 (ex_search 200)) (Some old) =
                  Inr (Some (sect @ (if old = [] then [] else [nl, nl] @ old)), lg)"
    by blast
  from d [rule_format, of "''old''"] have d':
    "write_changelog (ex_self ''Release 2.0.0 launch'') (ex_github 404 (ex_search 200))
       (Some ''old'') = Inr (Some (sect @ [nl, nl] @ ''old''), lg)"
    by simp
  from c [rule_format, of "''a'' @ [CHR 0x0D, nl] @ ''b''"] have c':
    "\<exists>tail. write_changelog (ex_self ''Release 2.0.0 launch'')
              (ex_github 404 (ex_search 200)) (Some (''a'' @ [CHR 0x0D, nl] @ ''b''))
            = Inr (Some (sect @ [nl, nl] @ ''a'' @ [nl] @ ''b'' @ tail), lg)"
    by simp
  from v p a b c' d' show ?thesis
    by blast
qed

subsection \<open>Runs that do not write\<close>

text \<open>
  Claim C5. When the fetch returns no pull request, \<open>write_changelog\<close> returns normally with
  the changelog file in the state it had: its text is the same, and a file that did not
  exist is not created. The fetch returns no pull request whenever the search endpoint
  answers with a status other than 200 or with a \<open>total_count\<close> that is not positive.
\<close>

theorem no_pull_requests_no_write:
  "(fst (get_pull_requests_after_last_release self gh) = []
      \<longrightarrow> write_changelog self gh fs =
            Inr (fs, if get_version_number (event_title self) = []
                     then [(WARNING, title_warning)]
                     else snd (get_pull_requests_after_last_release self gh)))
   \<and> ((search_status_code
          (search_issues gh
             (search_url (repository self)
                (if fst (get_latest_release_date self gh) \<noteq> []
                 then ''merged:>='' @ fst (get_latest_release_date self gh) else []))
             (get_request_headers self)) \<noteq> 200
        \<or> total_count
          (search_issues gh
             (search_url (repository self)
                (if fst (get_latest_release_date self gh) \<noteq> []
                 then ''merged:>='' @ fst (get_latest_release_date self gh) else []))
             (get_request_headers self)) \<le> 0)
      \<longrightarrow> fst (get_pull_requests_after_last_release self gh) = [])"
proof (intro conjI impI)
  assume empty: "fst (get_pull_requests_after_last_release self gh) = []"
  obtain prs lg where r: "get_pull_requests_after_last_release self gh = (prs, lg)"
    by (cases "get_pull_requests_after_last_release self gh")
  with empty have "prs = []" by simp
  with r show "write_changelog self gh fs =
            Inr (fs, if get_version_number (event_title self) = []
                     then [(WARNING, title_warning)]
                     else snd (get_pull_requests_after_last_release self gh))"
    by (simp add: write_changelog_def Let_def)
next
  assume "search_status_code
          (search_issues gh
             (search_url (repository self)
                (if fst (get_latest_release_date self gh) \<noteq> []
                 then ''merged:>='' @ fst (get_latest_release_date self gh) else []))
             (get_request_headers self)) \<noteq> 200
        \<or> total_count
          (search_issues gh
             (search_url (repository self)
                (if fst (get_latest_release_date self gh) \<noteq> []
                 then ''merged:>='' @ fst (get_latest_release_date self gh) else []))
             (get_request_headers self)) \<le> 0"
  then show "fst (get_pull_requests_after_last_release self gh) = []"
    by (cases "get_latest_release_date self gh")
       (auto simp: get_pull_requests_after_last_release_def Let_def)
qed

text \<open>A failed search with an existing file, and an empty search with no file.\<close>

theorem no_pull_requests_no_write_witness:
  "write_changelog (ex_self ''Release 2.0.0 launch'') (ex_github 200 (ex_search 500))
       (Some ''old'')
     = Inr (Some ''old'',
            [(ERROR, ''GitHub API returned error response for o/r, status code: 500'')])
   \<and> write_changelog (ex_self ''Release 2.0.0 launch'') (ex_github 200 ex_search_empty) None
     = Inr (None, [(WARNING, ''There was no pull request made on o/r after last release.'')])"
proof -
  have a: "get_pull_requests_after_last_release (ex_self ''Release 2.0.0 launch'')
            (ex_github 200 (ex_search 500)) =
           ([], [(ERROR, ''GitHub API returned error response for o/r, status code: 500'')])"
    by (simp add: get_pull_requests_after_last_release_def get_latest_release_date_def Let_def
        ex_self_def ex_github_def ex_search_def str_int_def str_nat.simps digit_char_def)
  have b: "get_pull_requests_after_last_release (ex_self ''Release 2.0.0 launch'')
            (ex_github 200 ex_search_empty) =
           ([], [(WARNING, ''There was no pull request made on o/r after last release.'')])"
    by (simp add: get_pull_requests_after_last_release_def get_latest_release_date_def Let_def
        ex_self_def ex_github_def ex_search_empty_def)
  show ?thesis
    using no_pull_requests_no_write
      [of "ex_self ''Release 2.0.0 launch''" "ex_github 200 (ex_search 500)" "Some ''old''"]
      no_pull_requests_no_write
      [of "ex_self ''Release 2.0.0 launch''" "ex_github 200 ex_search_empty" None]
    by (simp add: a b ex_version)
qed

subsection \<open>Leftover and ungrouped pull requests\<close>

lemma parse_data_groups:
  "gc \<noteq> [] \<Longrightarrow>
   parse_data gc prs =
     fst (groups_loop gc prs []) @
     (if snd (groups_loop gc prs []) = [] then []
      else [\<lparr>d_title = ''#### Other Changes'' @ [nl, nl],
             d_items = Mapped (map get_changelog_line (snd (groups_loop gc prs [])))\<rparr>])"
  by (cases "groups_loop gc prs []") (simp add: parse_data_def other_changes_def)

lemma write_group_fresh:
  "content (write_group \<lparr>content = [], pos = 0\<rparr> d) = group_text d"
proof -
  have "\<lparr>content = [], pos = 0\<rparr> = written [] []"
    by (simp add: written_def)
  then show ?thesis
    by (simp add: write_group_written content_written_all)
qed

text \<open>
  Claim C7. With a non-empty \<open>group_config\<close> the result is the entries of the configured
  groups, one for each group in order and titled after it, followed by one more entry
  exactly when the pool left by the loops is not empty. That entry is titled
  \<open>Other Changes\<close> and holds the lines of all the records left in the pool, and the writer
  emits it with its title. With an empty \<open>group_config\<close> the result is a single entry with
  an empty title that holds the lines of all records. A record is rendered as
  \<open>* [#number](url): title\<close> and a newline.
\<close>

theorem leftovers_and_ungrouped:
  "(gc \<noteq> [] \<longrightarrow>
      parse_data gc prs =
        fst (groups_loop gc prs []) @
        (if snd (groups_loop gc prs []) = [] then []
         else [\<lparr>d_title = ''#### Other Changes'' @ [nl, nl],
                d_items = Mapped (map get_changelog_line (snd (groups_loop gc prs [])))\<rparr>])
      \<and> map d_title (fst (groups_loop gc prs [])) = map (\<lambda>c. ''#### '' @ cfg_title c @ [nl, nl]) gc
      \<and> (snd (groups_loop gc prs []) \<noteq> [] \<longrightarrow>
           content (write_group \<lparr>content = [], pos = 0\<rparr> (last (parse_data gc prs))) =
             [nl] @ ''#### Other Changes'' @ [nl, nl] @ [nl]
             @ concat (map get_changelog_line (snd (groups_loop gc prs [])))))
   \<and> parse_data [] prs = [\<lparr>d_title = [], d_items = Mapped (map get_changelog_line prs)\<rparr>]
   \<and> get_changelog_line pr =
       ''* [#'' @ str_int (pr_number pr) @ ''](''  @ pr_url pr @ ''): '' @ pr_title pr @ [nl]"
proof (intro conjI impI)
  assume ne: "gc \<noteq> []"
  then show "parse_data gc prs =
        fst (groups_loop gc prs []) @
        (if snd (groups_loop gc prs []) = [] then []
         else [\<lparr>d_title = ''#### Other Changes'' @ [nl, nl],
                d_items = Mapped (map get_changelog_line (snd (groups_loop gc prs [])))\<rparr>])"
    by (rule parse_data_groups)
  show "map d_title (fst (groups_loop gc prs [])) = map (\<lambda>c. ''#### '' @ cfg_title c @ [nl, nl]) gc"
    using groups_loop_titles(1) [of gc prs "fst (groups_loop gc prs [])" "snd (groups_loop gc prs [])"]
    by simp
  assume left: "snd (groups_loop gc prs []) \<noteq> []"
  with ne have "last (parse_data gc prs) =
     \<lparr>d_title = ''#### Other Changes'' @ [nl, nl],
      d_items = Mapped (map get_changelog_line (snd (groups_loop gc prs [])))\<rparr>"
    by (simp add: parse_data_groups)
  then show "content (write_group \<lparr>content = [], pos = 0\<rparr> (last (parse_data gc prs))) =
             [nl] @ ''#### Other Changes'' @ [nl, nl] @ [nl]
             @ concat (map get_changelog_line (snd (groups_loop gc prs [])))"
    by (simp add: write_group_fresh group_text_def)
next
  show "parse_data [] prs = [\<lparr>d_title = [], d_items = Mapped (map get_changelog_line prs)\<rparr>]"
    by (simp add: parse_data_def)
next
  show "get_changelog_line pr =
       ''* [#'' @ str_int (pr_number pr) @ ''](''  @ pr_url pr @ ''): '' @ pr_title pr @ [nl]"
    by (simp add: get_changelog_line_def)
qed

lemma ex_leftover_loop:
  "groups_loop [ex_group_b] [ex_pr1, ex_pr2] [] =
     ([\<lparr>d_title = ''#### B'' @ [nl, nl],
        d_items = Listed [''* [#2](http://x/2): Add search'' @ [nl]]\<rparr>], [ex_pr1])"
  by (simp add: ex_group_b_def ex_pr1_def ex_pr2_def group_loop.simps label_match_def
      get_changelog_line_def str_int_def str_nat.simps digit_char_def)

text \<open>One group that claims the second record and leaves the first.\<close>

theorem leftovers_and_ungrouped_witness:
  "parse_data [ex_group_b] [ex_pr1, ex_pr2] =
     [\<lparr>d_title = ''#### B'' @ [nl, nl],
       d_items = Listed [''* [#2](http://x/2): Add search'' @ [nl]]\<rparr>,
      \<lparr>d_title = ''#### Other Changes'' @ [nl, nl],
       d_items = Mapped [''* [#1](http://x/1): Fix crash'' @ [nl]]\<rparr>]
   \<and> content (write_group \<lparr>content = [], pos = 0\<rparr> (last (parse_data [ex_group_b] [ex_pr1, ex_pr2])))
       = [nl] @ ''#### Other Changes'' @ [nl, nl] @ [nl] @ ''* [#1](http://x/1): Fix crash'' @ [nl]"
proof -
  note inst = leftovers_and_ungrouped [of "[ex_group_b]" "[ex_pr1, ex_pr2]" ex_pr2,
      unfolded ex_leftover_loop]
  have line: "get_changelog_line ex_pr1 = ''* [#1](http://x/1): Fix crash'' @ [nl]"
    by (simp add: get_changelog_line_def ex_pr1_def str_int_def str_nat.simps digit_char_def)
  from inst have entries:
    "parse_data [ex_group_b] [ex_pr1, ex_pr2] =
       [\<lparr>d_title = ''#### B'' @ [nl, nl],
         d_items = Listed [''* [#2](http://x/2): Add search'' @ [nl]]\<rparr>,
        \<lparr>d_title = ''#### Other Changes'' @ [nl, nl],
         d_items = Mapped [''* [#1](http://x/1): Fix crash'' @ [nl]]\<rparr>]"
    by (simp add: line)
  from inst show ?thesis
    by (simp add: entries line)
qed


end
